theory Spec2Isabelle
  imports Main "HOL-Library.Sublist"
begin

section \<open>Playlist transfer: the script main.py\<close>

text \<open>
  The script copies the videos of one playlist to another. It lists the source playlist
  page by page (\<open>get_all_videos_from_playlist\<close>), posts each identifier to the
  destination (\<open>add_video_to_playlist\<close>) and keeps the identifier of the last
  successful insertion in the file \<^verbatim>\<open>progress.txt\<close>
  (\<open>get_last_video_id\<close>, \<open>save_last_video_id\<close>), so that a later run resumes
  after it (\<open>main\<close>).

  Everything outside the script is explicit: the two HTTP endpoints are functions from the
  number of the request and the request to a response, the file system is one optional text
  (the contents of the progress file), and what the script prints is a list of lines.
  Python exceptions are values.
\<close>

subsection \<open>Python values\<close>

datatype py_error = TypeError | IndexError | AttributeError | KeyError

text \<open>
  A parsed JSON document, as \<open>response.json()\<close> returns it. \<open>JNull\<close> is Python's
  \<open>None\<close>. The operations below never look at the value of a number. A \<open>JObj\<close> holds
  the members in document order; as in \<open>json.loads\<close>, the last member of a name wins.
\<close>

datatype json =
  JNull
| JBool bool
| JNum int
| JStr string
| JArr "json list"
| JObj "(string \<times> json) list"

definition member_of :: "(string \<times> json) list \<Rightarrow> string \<Rightarrow> json option" where
  "member_of kvs k = map_of (rev kvs) k"

text \<open>\<open>key in x\<close> for a string \<open>key\<close>.\<close>

fun py_in :: "string \<Rightarrow> json \<Rightarrow> py_error + bool" where
  "py_in k (JObj kvs) = Inr (member_of kvs k \<noteq> None)"
| "py_in k (JArr xs) = Inr (List.member xs (JStr k))"
| "py_in k (JStr s) = Inr (sublist k s)"
| "py_in k JNull = Inl TypeError"
| "py_in k (JBool b) = Inl TypeError"
| "py_in k (JNum n) = Inl TypeError"

text \<open>\<open>x[key]\<close> for a string \<open>key\<close>.\<close>

fun py_item :: "json \<Rightarrow> string \<Rightarrow> py_error + json" where
  "py_item (JObj kvs) k = (case member_of kvs k of None \<Rightarrow> Inl KeyError | Some v \<Rightarrow> Inr v)"
| "py_item x k = Inl TypeError"

text \<open>\<open>x.get(key)\<close>: only a dict has the method; a missing key gives \<open>None\<close>.\<close>

fun py_get :: "json \<Rightarrow> string \<Rightarrow> py_error + json" where
  "py_get (JObj kvs) k = (case member_of kvs k of None \<Rightarrow> Inr JNull | Some v \<Rightarrow> Inr v)"
| "py_get x k = Inl AttributeError"

text \<open>\<open>x[0]\<close>. The keys of a parsed JSON object are strings, so \<open>0\<close> is never one.\<close>

fun py_first :: "json \<Rightarrow> py_error + json" where
  "py_first (JArr []) = Inl IndexError"
| "py_first (JArr (x # xs)) = Inr x"
| "py_first (JStr []) = Inl IndexError"
| "py_first (JStr (c # cs)) = Inr (JStr [c])"
| "py_first (JObj kvs) = Inl KeyError"
| "py_first x = Inl TypeError"

subsection \<open>Text files\<close>

text \<open>
  A Python \<open>str\<close> is a list of characters; a \<open>char\<close> stands for the code point of the
  same number (below 256). \<open>str.strip()\<close> removes the characters \<open>c\<close> with
  \<open>c.isspace()\<close> from both ends; below 256 these are the twelve code points listed.
\<close>

definition isspace :: "char \<Rightarrow> bool" where
  "isspace c = List.member [9, 10, 11, 12, 13, 28, 29, 30, 31, 32, 133, 160 :: nat] (of_char c)"

definition strip :: "string \<Rightarrow> string" where
  "strip s = rev (dropWhile isspace (rev (dropWhile isspace s)))"

text \<open>
  The progress file is opened in text mode with the default \<open>newline=None\<close>. Reading
  then translates every line ending, \<open>\r\n\<close> or a lone \<open>\r\<close>, to \<open>\n\<close>
  (universal newlines). Writing replaces \<open>\n\<close> by \<open>os.linesep\<close>, which is
  \<open>\n\<close> itself on POSIX: the model is of a POSIX system, where \<open>f.write\<close> stores
  the text as it is. The file operations themselves are taken to succeed.
\<close>

fun universal_newlines :: "string \<Rightarrow> string" where
  "universal_newlines [] = []"
| "universal_newlines [c] = (if c = CHR 0x0D then [CHR 0x0A] else [c])"
| "universal_newlines (c # d # s) =
     (if c = CHR 0x0D \<and> d = CHR 0x0A then CHR 0x0A # universal_newlines s
      else if c = CHR 0x0D then CHR 0x0A # universal_newlines (d # s)
      else c # universal_newlines (d # s))"

subsection \<open>The world of the script\<close>

text \<open>The lines the script prints, with the values its f-strings insert.\<close>

datatype line =
  Fetching_videos
| Error_fetching
| Found_videos nat
| Failed_to_add string
| Api_error_message json
| Api_error_reason json
| Could_not_parse
| Unexpected_error
| Please_fill_in
| No_videos
| Resuming string
| Invalid_progress
| Starting_transfer nat
| Adding_video nat nat string
| Stopping_transfer
| Dashes
| Transfer_complete nat nat
| Deleting_progress

record list_request =
  list_playlistId :: string
  list_key :: string
  maxResults :: nat
  pageToken :: "string option"

record post_request =
  authorization :: string
  post_playlistId :: string
  post_videoId :: string

text \<open>
  \<open>progress_file\<close> is the text in \<^verbatim>\<open>progress.txt\<close>, \<open>None\<close> when the file does
  not exist. \<open>gets\<close> and \<open>posts\<close> are the requests sent so far, \<open>stdout\<close> the lines
  printed so far, \<open>removes\<close> the number of calls of \<open>os.remove\<close> so far.
\<close>

record world =
  progress_file :: "string option"
  gets :: "list_request list"
  posts :: "post_request list"
  stdout :: "line list"
  removes :: nat

definition print :: "line \<Rightarrow> world \<Rightarrow> world" where
  "print l w = w\<lparr>stdout := stdout w @ [l]\<rparr>"

subsection \<open>The checkpoint file\<close>

definition get_last_video_id :: "world \<Rightarrow> string option" where
  "get_last_video_id w =
     (case progress_file w of
        Some text \<Rightarrow> Some (strip (universal_newlines text))
      | None \<Rightarrow> None)"

definition save_last_video_id :: "string \<Rightarrow> world \<Rightarrow> world" where
  "save_last_video_id video_id w = w\<lparr>progress_file := Some video_id\<rparr>"

subsection \<open>HTTP\<close>

text \<open>
  What a call of \<open>requests.get\<close> or \<open>requests.post\<close> gives: a transport failure (a
  \<open>RequestException\<close> that is not an \<open>HTTPError\<close>), or a response with its status
  code and its body as \<open>response.json()\<close> parses it, \<open>None\<close> for a body that is not
  JSON. For such a body \<open>response.json()\<close> raises
  \<open>requests.exceptions.JSONDecodeError\<close>, which is both a \<open>RequestException\<close>
  and a \<open>json.JSONDecodeError\<close> (requests 2.27 and later, without simplejson).
  \<open>response.raise_for_status()\<close> raises \<open>HTTPError\<close> for the status codes 400 to
  599 and for no other.
\<close>

datatype 'b http_response = Transport_error | Response nat "'b option"

definition raise_for_status :: "nat \<Rightarrow> bool" where
  "raise_for_status status_code = (400 \<le> status_code \<and> status_code < 600)"

definition and_then :: "'e + 'a \<Rightarrow> ('a \<Rightarrow> 'e + 'b) \<Rightarrow> 'e + 'b" where
  "and_then r f = (case r of Inl e \<Rightarrow> Inl e | Inr x \<Rightarrow> f x)"

subsection \<open>The Inserter: \<open>add_video_to_playlist\<close>\<close>

text \<open>
  Lines 91 to 94, with \<open>error_data\<close> parsed: the membership test and the two
  \<open>print\<close> calls, whose arguments are evaluated before anything is printed. The result
  is the exception that leaves the block, if any. None of the exceptions modelled is a
  \<open>json.JSONDecodeError\<close>, so the handler of line 95 catches none of them.
\<close>

definition print_error_details :: "json \<Rightarrow> world \<Rightarrow> py_error option \<times> world" where
  "print_error_details error_data w =
     (case py_in ''error'' error_data of
        Inl e \<Rightarrow> (Some e, w)
      | Inr present \<Rightarrow>
          if \<not> present then (None, w)
          else
            (case and_then (py_item error_data ''error'') (\<lambda>err. py_get err ''message'') of
               Inl e \<Rightarrow> (Some e, w)
             | Inr message \<Rightarrow>
                 (case and_then (py_item error_data ''error'') (\<lambda>err.
                       and_then (py_get err ''errors'') (\<lambda>errors.
                       and_then (py_first errors) (\<lambda>first. py_get first ''reason''))) of
                    Inl e \<Rightarrow> (Some e, print (Api_error_message message) w)
                  | Inr reason \<Rightarrow>
                      (None, print (Api_error_reason reason) (print (Api_error_message message) w)))))"

text \<open>Lines 68 to 82: the request of one insertion.\<close>

definition insert_request :: "string \<Rightarrow> string \<Rightarrow> string \<Rightarrow> post_request" where
  "insert_request playlist_id access_token video_id =
     \<lparr>authorization = ''Bearer '' @ access_token,
      post_playlistId = playlist_id, post_videoId = video_id\<rparr>"

text \<open>
  \<open>post n r\<close> is the response of the destination endpoint to the request \<open>r\<close> when
  \<open>n\<close> requests have been posted before. The result is \<open>Inr\<close> the boolean returned,
  or \<open>Inl\<close> the exception that leaves the function.
\<close>

definition add_video_to_playlist ::
  "(nat \<Rightarrow> post_request \<Rightarrow> json http_response) \<Rightarrow> string \<Rightarrow> string \<Rightarrow> string \<Rightarrow> world
     \<Rightarrow> (py_error + bool) \<times> world" where
  "add_video_to_playlist post playlist_id access_token video_id w0 =
     (let request = insert_request playlist_id access_token video_id;
          response = post (length (posts w0)) request;
          w = w0\<lparr>posts := posts w0 @ [request]\<rparr>
      in case response of
           Transport_error \<Rightarrow> (Inr False, print Unexpected_error w)
         | Response status_code body \<Rightarrow>
             if \<not> raise_for_status status_code then (Inr True, w)
             else
               (case body of
                  None \<Rightarrow> (Inr False, print Could_not_parse (print (Failed_to_add video_id) w))
                | Some error_data \<Rightarrow>
                    (case print_error_details error_data (print (Failed_to_add video_id) w) of
                       (Some e, w') \<Rightarrow> (Inl e, w')
                     | (None, w') \<Rightarrow> (Inr False, w'))))"

subsection \<open>The Lister: \<open>get_all_videos_from_playlist\<close>\<close>

text \<open>
  A page of the listing endpoint, in the shape of the API's \<open>playlistItems\<close> response:
  every member the script reads with \<open>.get\<close> may be missing (\<open>None\<close>), and an
  identifier or a token that is there is a string.
\<close>

datatype resource_id = Resource_id (videoId: "string option")
datatype snippet = Snippet (resourceId: "resource_id option")
datatype item = Item (snippet: "snippet option")

record page =
  items :: "item list option"
  nextPageToken :: "string option"

text \<open>Line 50: \<open>data.get("items", [])\<close>.\<close>

definition page_items :: "page \<Rightarrow> item list" where
  "page_items data = (case items data of None \<Rightarrow> [] | Some its \<Rightarrow> its)"

text \<open>Line 51: a missing \<open>snippet\<close> or \<open>resourceId\<close> is read as the empty dict.\<close>

definition item_video_id :: "item \<Rightarrow> string option" where
  "item_video_id it =
     (case snippet it of
        None \<Rightarrow> None
      | Some s \<Rightarrow> (case resourceId s of None \<Rightarrow> None | Some r \<Rightarrow> videoId r))"

text \<open>The truth value of an optional string: \<open>None\<close> and the empty string are false.\<close>

definition truthy :: "string option \<Rightarrow> bool" where
  "truthy x = (case x of None \<Rightarrow> False | Some s \<Rightarrow> s \<noteq> [])"

text \<open>Lines 50 to 53: the \<open>for\<close> loop over the items of one page.\<close>

fun append_videos :: "item list \<Rightarrow> string list \<Rightarrow> string list" where
  "append_videos [] videos = videos"
| "append_videos (it # rest) videos =
     (if truthy (item_video_id it)
      then append_videos rest (videos @ [the (item_video_id it)])
      else append_videos rest videos)"

text \<open>Lines 36 to 43: the request of one page.\<close>

definition list_params :: "string \<Rightarrow> string \<Rightarrow> string option \<Rightarrow> list_request" where
  "list_params playlist_id api_key next_page_token =
     \<lparr>list_playlistId = playlist_id, list_key = api_key, maxResults = 50,
      pageToken = next_page_token\<rparr>"

text \<open>
  Lines 35 to 64: the \<open>while True\<close> loop, with the \<open>print\<close> and the \<open>return\<close>
  that follow its \<open>break\<close>. \<open>get n r\<close> is the response of the listing endpoint to
  the request \<open>r\<close> when \<open>n\<close> requests have been sent before. The loop has no bound:
  \<open>None\<close> is a run that never returns.
\<close>

partial_function (option) fetch_pages ::
  "(nat \<Rightarrow> list_request \<Rightarrow> page http_response) \<Rightarrow> string \<Rightarrow> string \<Rightarrow> string option
     \<Rightarrow> string list \<Rightarrow> world \<Rightarrow> (string list \<times> world) option" where
  "fetch_pages get playlist_id api_key next_page_token videos w0 =
     (let params = list_params playlist_id api_key next_page_token;
          response = get (length (gets w0)) params;
          w = w0\<lparr>gets := gets w0 @ [params]\<rparr>
      in case response of
           Transport_error \<Rightarrow> Some ([], print Error_fetching w)
         | Response status_code body \<Rightarrow>
             if raise_for_status status_code then Some ([], print Error_fetching w)
             else
               (case body of
                  None \<Rightarrow> Some ([], print Error_fetching w)
                | Some data \<Rightarrow>
                    (let videos' = append_videos (page_items data) videos
                     in if \<not> truthy (nextPageToken data)
                        then Some (videos', print (Found_videos (length videos')) w)
                        else fetch_pages get playlist_id api_key (nextPageToken data) videos' w)))"

definition get_all_videos_from_playlist ::
  "(nat \<Rightarrow> list_request \<Rightarrow> page http_response) \<Rightarrow> string \<Rightarrow> string \<Rightarrow> world
     \<Rightarrow> (string list \<times> world) option" where
  "get_all_videos_from_playlist get playlist_id api_key w =
     fetch_pages get playlist_id api_key None [] (print Fetching_videos w)"

subsection \<open>The orchestrator: \<open>main\<close>\<close>

record config =
  API_KEY :: string
  SOURCE_PLAYLIST_ID :: string
  DESTINATION_PLAYLIST_ID :: string
  ACCESS_TOKEN :: string

text \<open>\<open>xs.index(x)\<close>: the first position of \<open>x\<close>; \<open>None\<close> is the \<open>ValueError\<close>.\<close>

fun list_index :: "string list \<Rightarrow> string \<Rightarrow> nat option" where
  "list_index [] x = None"
| "list_index (y # ys) x = (if y = x then Some 0 else map_option Suc (list_index ys x))"

text \<open>Lines 126 to 136: the checkpoint is read and \<open>videos_to_add\<close> computed.\<close>

definition videos_to_add :: "string list \<Rightarrow> world \<Rightarrow> string list \<times> world" where
  "videos_to_add video_ids w =
     (case get_last_video_id w of
        None \<Rightarrow> (video_ids, w)
      | Some last_video_id \<Rightarrow>
          if last_video_id = [] then (video_ids, w)
          else
            (case list_index video_ids last_video_id of
               Some i \<Rightarrow> (drop (i + 1) video_ids, print (Resuming last_video_id) w)
             | None \<Rightarrow> (video_ids, print Invalid_progress (print (Resuming last_video_id) w))))"

text \<open>
  Lines 141 to 150: the \<open>for\<close> loop over \<open>videos_to_add\<close>, from position \<open>i\<close>, with
  \<open>planned\<close> the length of the whole list. The result is the exception that ended the
  loop, if any, the value of \<open>successful_additions\<close> and the world. \<open>time.sleep\<close>
  has no effect on the world.
\<close>

fun transfer_loop ::
  "config \<Rightarrow> (nat \<Rightarrow> post_request \<Rightarrow> json http_response) \<Rightarrow> nat \<Rightarrow> nat \<Rightarrow> string list
     \<Rightarrow> nat \<Rightarrow> world \<Rightarrow> py_error option \<times> nat \<times> world" where
  "transfer_loop cfg post planned i [] successful_additions w = (None, successful_additions, w)"
| "transfer_loop cfg post planned i (video_id # rest) successful_additions w =
     (case add_video_to_playlist post (DESTINATION_PLAYLIST_ID cfg) (ACCESS_TOKEN cfg) video_id
             (print (Adding_video (i + 1) planned video_id) w) of
        (Inl e, w') \<Rightarrow> (Some e, successful_additions, w')
      | (Inr ok, w') \<Rightarrow>
          if ok
          then transfer_loop cfg post planned (i + 1) rest (successful_additions + 1)
                 (save_last_video_id video_id w')
          else (None, successful_additions, print Stopping_transfer w'))"

text \<open>Lines 152 to 157: the summary, and the removal of the progress file.\<close>

definition finish :: "nat \<Rightarrow> nat \<Rightarrow> world \<Rightarrow> world" where
  "finish successful_additions planned w0 =
     (let w = print (Transfer_complete successful_additions planned) (print Dashes w0)
      in if successful_additions = planned
         then (let w' = print Deleting_progress w
               in if progress_file w' \<noteq> None
                  then w'\<lparr>progress_file := None, removes := removes w' + 1\<rparr>
                  else w')
         else w)"

text \<open>Lines 138 to 157: the transfer of \<open>videos_to_add\<close>.\<close>

definition run_transfer ::
  "config \<Rightarrow> (nat \<Rightarrow> post_request \<Rightarrow> json http_response) \<Rightarrow> string list \<Rightarrow> world
     \<Rightarrow> py_error option \<times> world" where
  "run_transfer cfg post to_add w =
     (case transfer_loop cfg post (length to_add) 0 to_add 0
             (print (Starting_transfer (length to_add)) w) of
        (Some e, successful_additions, w') \<Rightarrow> (Some e, w')
      | (None, successful_additions, w') \<Rightarrow>
          (None, finish successful_additions (length to_add) w'))"

text \<open>
  \<open>main\<close>: \<open>None\<close> when the listing never returns; otherwise the exception that
  ended the run, if any, and the world it leaves.
\<close>

definition main ::
  "config \<Rightarrow> (nat \<Rightarrow> list_request \<Rightarrow> page http_response)
     \<Rightarrow> (nat \<Rightarrow> post_request \<Rightarrow> json http_response) \<Rightarrow> world
     \<Rightarrow> (py_error option \<times> world) option" where
  "main cfg get post w =
     (if API_KEY cfg = [] \<or> SOURCE_PLAYLIST_ID cfg = [] \<or> DESTINATION_PLAYLIST_ID cfg = []
         \<or> ACCESS_TOKEN cfg = []
      then Some (None, print Please_fill_in w)
      else
        (case get_all_videos_from_playlist get (SOURCE_PLAYLIST_ID cfg) (API_KEY cfg) w of
           None \<Rightarrow> None
         | Some (video_ids, w1) \<Rightarrow>
             if video_ids = [] then Some (None, print No_videos w1)
             else (case videos_to_add video_ids w1 of
                     (to_add, w2) \<Rightarrow> Some (run_transfer cfg post to_add w2))))"

subsection \<open>Runs\<close>

text \<open>A world to run the script in: no progress file, nothing sent or printed yet.\<close>

definition fresh_world :: world where
  "fresh_world = \<lparr>progress_file = None, gets = [], posts = [], stdout = [], removes = 0\<rparr>"

text \<open>
  What \<open>add_video_to_playlist\<close> returns when the endpoint answers \<open>response\<close>:
  \<open>Inr True\<close>, \<open>Inr False\<close> or an exception.
\<close>

definition insertion_outcome :: "json http_response \<Rightarrow> py_error + bool" where
  "insertion_outcome response =
     fst (add_video_to_playlist (\<lambda>n r. response) [] [] [] fresh_world)"

text \<open>
  The insertions of the identifiers \<open>vs\<close>, in order, all return \<open>True\<close> when \<open>n\<close>
  requests have been posted before.
\<close>

fun all_inserted ::
  "(nat \<Rightarrow> post_request \<Rightarrow> json http_response) \<Rightarrow> config \<Rightarrow> nat \<Rightarrow> string list \<Rightarrow> bool" where
  "all_inserted post cfg n [] = True"
| "all_inserted post cfg n (v # vs) =
     (insertion_outcome
        (post n (insert_request (DESTINATION_PLAYLIST_ID cfg) (ACCESS_TOKEN cfg) v)) = Inr True
      \<and> all_inserted post cfg (Suc n) vs)"

text \<open>
  The listing endpoint rejects a request: the transport fails, or the status code is one
  that \<open>raise_for_status\<close> raises for (400 to 599).
\<close>

definition rejected :: "'b http_response \<Rightarrow> bool" where
  "rejected response =
     (case response of
        Transport_error \<Rightarrow> True
      | Response status_code body \<Rightarrow> raise_for_status status_code)"

text \<open>The page of a response that the Lister accepts, if it is one.\<close>

definition accepted_page :: "page http_response \<Rightarrow> page option" where
  "accepted_page response =
     (case response of
        Transport_error \<Rightarrow> None
      | Response status_code body \<Rightarrow> if raise_for_status status_code then None else body)"

text \<open>
  The endpoint serves the pages \<open>ps\<close>, each with a continuation token that leads to the
  next request, from the request number \<open>n\<close> with the token \<open>tok\<close> on.
\<close>

fun served ::
  "(nat \<Rightarrow> list_request \<Rightarrow> page http_response) \<Rightarrow> string \<Rightarrow> string \<Rightarrow> nat \<Rightarrow> string option
     \<Rightarrow> page list \<Rightarrow> bool" where
  "served get playlist_id api_key n tok [] = True"
| "served get playlist_id api_key n tok (p # ps) =
     (accepted_page (get n (list_params playlist_id api_key tok)) = Some p
      \<and> truthy (nextPageToken p)
      \<and> served get playlist_id api_key (Suc n) (nextPageToken p) ps)"

definition token_after :: "string option \<Rightarrow> page list \<Rightarrow> string option" where
  "token_after tok ps = (if ps = [] then tok else nextPageToken (last ps))"

text \<open>The identifiers of the entries that have one, in order.\<close>

definition resolvable :: "item list \<Rightarrow> string list" where
  "resolvable its = map (\<lambda>it. the (item_video_id it)) (filter (\<lambda>it. truthy (item_video_id it)) its)"

text \<open>The configuration as the script ships it, lines 9 to 24.\<close>

definition placeholders :: config where
  "placeholders = \<lparr>API_KEY = ''YOUR_API_KEY'', SOURCE_PLAYLIST_ID = ''YOUR_SOURCE_PLAYLIST_ID'',
     DESTINATION_PLAYLIST_ID = ''YOUR_DESTINATION_PLAYLIST_ID'',
     ACCESS_TOKEN = ''YOUR_OAUTH_ACCESS_TOKEN''\<rparr>"

text \<open>
  A destination endpoint that accepts the first \<open>k\<close> insertions and answers every later
  one with 403 and a body that is not JSON.
\<close>

definition accepts_first :: "nat \<Rightarrow> nat \<Rightarrow> post_request \<Rightarrow> json http_response" where
  "accepts_first k n r = (if n < k then Response 200 None else Response 403 None)"

text \<open>
  A listing endpoint that answers the request number \<open>n\<close> with the page number \<open>n\<close> of
  \<open>ps\<close>, and an entry of a page with the identifier \<open>video_id\<close>.
\<close>

definition serves_pages :: "page list \<Rightarrow> nat \<Rightarrow> list_request \<Rightarrow> page http_response" where
  "serves_pages ps n r = (if n < length ps then Response 200 (Some (ps ! n)) else Transport_error)"

definition entry :: "string \<Rightarrow> item" where
  "entry video_id = Item (Some (Snippet (Some (Resource_id (Some video_id)))))"

section \<open>Properties\<close>

subsection \<open>Reading and writing the checkpoint\<close>

lemma universal_newlines_id: "CHR 0x0D \<notin> set s \<Longrightarrow> universal_newlines s = s"
  by (induction s rule: universal_newlines.induct) auto

lemma dropWhile_hd_id: "s \<noteq> [] \<Longrightarrow> \<not> P (hd s) \<Longrightarrow> dropWhile P s = s"
  by (cases s) auto

lemma strip_id: "s \<noteq> [] \<Longrightarrow> \<not> isspace (hd s) \<Longrightarrow> \<not> isspace (last s) \<Longrightarrow> strip s = s"
  by (simp add: strip_def dropWhile_hd_id hd_rev)

lemma last_dropWhile: "dropWhile P xs \<noteq> [] \<Longrightarrow> last (dropWhile P xs) = last xs"
  by (induction xs) (auto split: if_splits)

lemma strip_ends:
  assumes "strip s \<noteq> []"
  shows "\<not> isspace (hd (strip s)) \<and> \<not> isspace (last (strip s))"
proof -
  let ?t = "dropWhile isspace s"
  let ?u = "dropWhile isspace (rev ?t)"
  from assms have u: "?u \<noteq> []" by (simp add: strip_def)
  then have t: "?t \<noteq> []" by (metis dropWhile.simps(1) rev.simps(1))
  have "\<not> isspace (hd ?u)" using u by (rule hd_dropWhile)
  moreover have "last ?u = last (rev ?t)" using u by (rule last_dropWhile)
  moreover have "\<not> isspace (hd ?t)" using t by (rule hd_dropWhile)
  ultimately show ?thesis using u t
    by (simp add: strip_def hd_rev last_rev)
qed

lemma get_after_save:
  "get_last_video_id (save_last_video_id video_id w) = Some (strip (universal_newlines video_id))"
  by (simp add: get_last_video_id_def save_last_video_id_def)

text \<open>
  C10, as stated, at the identifier \<open>a\rb\<close>: it is not empty and neither its first nor
  its last character is whitespace, yet what is read back after writing it is not the
  identifier. The read returns \<open>a\nb\<close>, because a text-mode read translates the carriage
  return.
\<close>

theorem checkpoint_roundtrip_carriage_return:
  "[CHR ''a'', CHR 0x0D, CHR ''b''] \<noteq> []
   \<and> \<not> isspace (hd [CHR ''a'', CHR 0x0D, CHR ''b''])
   \<and> \<not> isspace (last [CHR ''a'', CHR 0x0D, CHR ''b''])
   \<and> get_last_video_id (save_last_video_id [CHR ''a'', CHR 0x0D, CHR ''b''] fresh_world)
       = Some [CHR ''a'', CHR 0x0A, CHR ''b'']
   \<and> get_last_video_id (save_last_video_id [CHR ''a'', CHR 0x0D, CHR ''b''] fresh_world)
       \<noteq> Some [CHR ''a'', CHR 0x0D, CHR ''b'']"
  by (simp add: get_last_video_id_def save_last_video_id_def strip_def isspace_def
        fresh_world_def)

text \<open>
  C10, amended. For every non-empty identifier with no leading or trailing whitespace and
  no carriage return in it, \<open>get_last_video_id\<close> after \<open>save_last_video_id\<close> returns
  exactly the identifier. A non-empty identifier that begins or ends with whitespace is
  not what is read back. After the empty string has been written, \<open>main\<close> computes its
  work list as it does when there is no progress file: the whole sequence, with nothing
  printed.
\<close>

theorem checkpoint_roundtrip:
  "(video_id \<noteq> [] \<and> \<not> isspace (hd video_id) \<and> \<not> isspace (last video_id)
      \<and> CHR 0x0D \<notin> set video_id
      \<longrightarrow> get_last_video_id (save_last_video_id video_id w) = Some video_id)
   \<and> (padded \<noteq> [] \<and> (isspace (hd padded) \<or> isspace (last padded))
      \<longrightarrow> get_last_video_id (save_last_video_id padded w) \<noteq> Some padded)
   \<and> get_last_video_id (save_last_video_id [] w) = Some []
   \<and> videos_to_add video_ids (save_last_video_id [] w) = (video_ids, save_last_video_id [] w)
   \<and> videos_to_add video_ids (w\<lparr>progress_file := None\<rparr>)
       = (video_ids, w\<lparr>progress_file := None\<rparr>)"
proof -
  have clean: "get_last_video_id (save_last_video_id video_id w) = Some video_id"
    if "video_id \<noteq> []" "\<not> isspace (hd video_id)" "\<not> isspace (last video_id)"
      "CHR 0x0D \<notin> set video_id"
    using that by (simp add: get_after_save universal_newlines_id strip_id)
  have padded: "get_last_video_id (save_last_video_id padded w) \<noteq> Some padded"
    if "padded \<noteq> []" "isspace (hd padded) \<or> isspace (last padded)"
  proof
    assume "get_last_video_id (save_last_video_id padded w) = Some padded"
    then have eq: "strip (universal_newlines padded) = padded"
      by (simp add: get_after_save)
    with that(1) have "strip (universal_newlines padded) \<noteq> []" by simp
    then have "\<not> isspace (hd (strip (universal_newlines padded)))
        \<and> \<not> isspace (last (strip (universal_newlines padded)))"
      by (rule strip_ends)
    with eq that(2) show False by simp
  qed
  have empty: "get_last_video_id (save_last_video_id [] w) = Some []"
    by (simp add: get_after_save strip_def)
  have absent: "get_last_video_id (w\<lparr>progress_file := None\<rparr>) = None"
    by (simp add: get_last_video_id_def)
  show ?thesis
    using clean padded by (simp add: empty absent videos_to_add_def)
qed

theorem checkpoint_roundtrip_witness:
  "''dQw4w9WgXcQ'' \<noteq> [] \<and> \<not> isspace (hd ''dQw4w9WgXcQ'') \<and> \<not> isspace (last ''dQw4w9WgXcQ'')
   \<and> CHR 0x0D \<notin> set ''dQw4w9WgXcQ''
   \<and> get_last_video_id (save_last_video_id ''dQw4w9WgXcQ'' fresh_world) = Some ''dQw4w9WgXcQ''
   \<and> ''dQw4w9WgXcQ '' \<noteq> [] \<and> isspace (last ''dQw4w9WgXcQ '')
   \<and> get_last_video_id (save_last_video_id ''dQw4w9WgXcQ '' fresh_world) \<noteq> Some ''dQw4w9WgXcQ ''"
  using checkpoint_roundtrip [of "''dQw4w9WgXcQ''" fresh_world "''dQw4w9WgXcQ ''" "[]"]
  by (simp add: isspace_def)

subsection \<open>The Inserter\<close>

text \<open>
  \<open>add_video_to_playlist\<close> prints and posts; it leaves the progress file alone. What it
  returns depends on the response only.
\<close>

lemma print_frame [simp]:
  "progress_file (print l w) = progress_file w" "posts (print l w) = posts w"
  "gets (print l w) = gets w" "removes (print l w) = removes w"
  by (simp_all add: print_def)

lemma print_error_details_fst:
  "fst (print_error_details d w) = fst (print_error_details d w')"
  by (simp add: print_error_details_def split: sum.splits)

lemma print_error_details_frame:
  "progress_file (snd (print_error_details d w)) = progress_file w"
  "posts (snd (print_error_details d w)) = posts w"
  "gets (snd (print_error_details d w)) = gets w"
  "removes (snd (print_error_details d w)) = removes w"
  by (simp_all add: print_error_details_def split: sum.splits)

lemma add_video_unfold:
  "add_video_to_playlist post p t v w =
     (case post (length (posts w)) (insert_request p t v) of
        Transport_error \<Rightarrow>
          (Inr False, print Unexpected_error (w\<lparr>posts := posts w @ [insert_request p t v]\<rparr>))
      | Response status_code body \<Rightarrow>
          if \<not> raise_for_status status_code
          then (Inr True, w\<lparr>posts := posts w @ [insert_request p t v]\<rparr>)
          else
            (case body of
               None \<Rightarrow> (Inr False, print Could_not_parse
                  (print (Failed_to_add v) (w\<lparr>posts := posts w @ [insert_request p t v]\<rparr>)))
             | Some d \<Rightarrow>
                 (case fst (print_error_details d
                        (print (Failed_to_add v) (w\<lparr>posts := posts w @ [insert_request p t v]\<rparr>))) of
                    Some e \<Rightarrow> Inl e | None \<Rightarrow> Inr False,
                  snd (print_error_details d
                        (print (Failed_to_add v) (w\<lparr>posts := posts w @ [insert_request p t v]\<rparr>))))))"
  by (simp add: add_video_to_playlist_def Let_def
      split: http_response.split option.split prod.split)

lemma add_video_outcome:
  "fst (add_video_to_playlist post p t v w)
     = insertion_outcome (post (length (posts w)) (insert_request p t v))"
proof (cases "post (length (posts w)) (insert_request p t v)")
  case Transport_error
  then show ?thesis by (simp add: insertion_outcome_def add_video_unfold)
next
  case (Response s body)
  show ?thesis
  proof (cases body)
    case None
    with Response show ?thesis by (simp add: insertion_outcome_def add_video_unfold)
  next
    case (Some d)
    have "fst (print_error_details d
             (print (Failed_to_add v) (w\<lparr>posts := posts w @ [insert_request p t v]\<rparr>)))
        = fst (print_error_details d
             (print (Failed_to_add []) (fresh_world\<lparr>posts := posts fresh_world @ [insert_request [] [] []]\<rparr>)))"
      by (rule print_error_details_fst)
    with Response Some show ?thesis
      by (simp add: insertion_outcome_def add_video_unfold)
  qed
qed

lemma add_video_frame:
  "progress_file (snd (add_video_to_playlist post p t v w)) = progress_file w"
  "posts (snd (add_video_to_playlist post p t v w)) = posts w @ [insert_request p t v]"
  "gets (snd (add_video_to_playlist post p t v w)) = gets w"
  "removes (snd (add_video_to_playlist post p t v w)) = removes w"
  by (simp_all add: add_video_unfold print_error_details_frame
      split: http_response.split option.split)

text \<open>
  C6. The destination answers 401 with the body
  \<^verbatim>\<open>{"error": {"code": 401, "message": "Invalid Credentials", "status": "UNAUTHENTICATED"}}\<close>,
  an error payload with no \<open>errors\<close> member. \<open>add_video_to_playlist\<close> does not return
  a boolean: line 94 subscripts the \<open>None\<close> that \<open>.get('errors')\<close> returns, and the
  \<open>TypeError\<close> leaves the function.
\<close>

theorem add_video_to_playlist_raises:
  "fst (add_video_to_playlist
          (\<lambda>n r. Response 401 (Some (JObj [(''error'', JObj [(''code'', JNum 401),
             (''message'', JStr ''Invalid Credentials''),
             (''status'', JStr ''UNAUTHENTICATED'')])])))
          ''PLdestination'' ''token'' ''dQw4w9WgXcQ'' w) = Inl TypeError"
  by (simp add: add_video_to_playlist_def raise_for_status_def print_error_details_def
        and_then_def member_of_def Let_def)

subsection \<open>The transfer loop\<close>

lemma save_frame [simp]:
  "progress_file (save_last_video_id v w) = Some v" "posts (save_last_video_id v w) = posts w"
  "gets (save_last_video_id v w) = gets w" "removes (save_last_video_id v w) = removes w"
  by (simp_all add: save_last_video_id_def)

lemma transfer_loop_Cons:
  "transfer_loop cfg post planned i (v # rest) n w =
     (case insertion_outcome (post (length (posts w))
              (insert_request (DESTINATION_PLAYLIST_ID cfg) (ACCESS_TOKEN cfg) v)) of
        Inl e \<Rightarrow> (Some e, n,
            snd (add_video_to_playlist post (DESTINATION_PLAYLIST_ID cfg) (ACCESS_TOKEN cfg) v
                  (print (Adding_video (i + 1) planned v) w)))
      | Inr ok \<Rightarrow>
          if ok
          then transfer_loop cfg post planned (i + 1) rest (n + 1)
                 (save_last_video_id v
                   (snd (add_video_to_playlist post (DESTINATION_PLAYLIST_ID cfg) (ACCESS_TOKEN cfg) v
                      (print (Adding_video (i + 1) planned v) w))))
          else (None, n, print Stopping_transfer
                   (snd (add_video_to_playlist post (DESTINATION_PLAYLIST_ID cfg) (ACCESS_TOKEN cfg) v
                      (print (Adding_video (i + 1) planned v) w)))))"
proof -
  obtain r w' where a: "add_video_to_playlist post (DESTINATION_PLAYLIST_ID cfg) (ACCESS_TOKEN cfg) v
                  (print (Adding_video (i + 1) planned v) w) = (r, w')"
    by (cases "add_video_to_playlist post (DESTINATION_PLAYLIST_ID cfg) (ACCESS_TOKEN cfg) v
                  (print (Adding_video (i + 1) planned v) w)")
  have "r = insertion_outcome (post (length (posts w))
              (insert_request (DESTINATION_PLAYLIST_ID cfg) (ACCESS_TOKEN cfg) v))"
    using add_video_outcome [of post "DESTINATION_PLAYLIST_ID cfg" "ACCESS_TOKEN cfg" v
        "print (Adding_video (i + 1) planned v) w"] a by simp
  with a show ?thesis by (simp split: sum.split)
qed

lemma transfer_loop_prefix:
  "all_inserted post cfg (length (posts w)) added \<Longrightarrow>
     \<exists>w'. transfer_loop cfg post planned i (added @ rest) n w
            = transfer_loop cfg post planned (i + length added) rest (n + length added) w'
        \<and> progress_file w' = (if added = [] then progress_file w else Some (last added))
        \<and> posts w' = posts w @ map (insert_request (DESTINATION_PLAYLIST_ID cfg) (ACCESS_TOKEN cfg)) added
        \<and> gets w' = gets w \<and> removes w' = removes w"
proof (induction added arbitrary: w i n)
  case Nil
  show ?case by (rule exI [of _ w]) simp
next
  case (Cons v vs)
  let ?w1 = "save_last_video_id v
                   (snd (add_video_to_playlist post (DESTINATION_PLAYLIST_ID cfg) (ACCESS_TOKEN cfg) v
                      (print (Adding_video (i + 1) planned v) w)))"
  from Cons.prems have ok: "insertion_outcome (post (length (posts w))
        (insert_request (DESTINATION_PLAYLIST_ID cfg) (ACCESS_TOKEN cfg) v)) = Inr True"
    and rest: "all_inserted post cfg (Suc (length (posts w))) vs"
    by simp_all
  have step: "transfer_loop cfg post planned i ((v # vs) @ rest) n w
        = transfer_loop cfg post planned (i + 1) (vs @ rest) (n + 1) ?w1"
    using ok by (simp add: transfer_loop_Cons del: transfer_loop.simps)
  have p1: "posts ?w1 = posts w @ [insert_request (DESTINATION_PLAYLIST_ID cfg) (ACCESS_TOKEN cfg) v]"
    by (simp add: add_video_frame)
  then have "all_inserted post cfg (length (posts ?w1)) vs"
    using rest by simp
  from Cons.IH [OF this, of "i + 1" "n + 1"] obtain w' where
    w': "transfer_loop cfg post planned (i + 1) (vs @ rest) (n + 1) ?w1
            = transfer_loop cfg post planned (i + 1 + length vs) rest (n + 1 + length vs) w'"
      "progress_file w' = (if vs = [] then progress_file ?w1 else Some (last vs))"
      "posts w' = posts ?w1 @ map (insert_request (DESTINATION_PLAYLIST_ID cfg) (ACCESS_TOKEN cfg)) vs"
      "gets w' = gets ?w1" "removes w' = removes ?w1"
    by blast
  show ?case
  proof (intro exI conjI)
    show "transfer_loop cfg post planned i ((v # vs) @ rest) n w
        = transfer_loop cfg post planned (i + length (v # vs)) rest (n + length (v # vs)) w'"
      using step w'(1) by (simp add: add.commute add.left_commute)
    show "progress_file w' = (if v # vs = [] then progress_file w else Some (last (v # vs)))"
      using w'(2) by simp
    show "posts w' = posts w @ map (insert_request (DESTINATION_PLAYLIST_ID cfg) (ACCESS_TOKEN cfg)) (v # vs)"
      using w'(3) p1 by simp
    show "gets w' = gets w" using w'(4) by (simp add: add_video_frame)
    show "removes w' = removes w" using w'(5) by (simp add: add_video_frame)
  qed
qed

lemma transfer_loop_removes:
  "removes (snd (snd (transfer_loop cfg post planned i vs n w))) = removes w"
proof (induction vs arbitrary: i n w)
  case Nil
  show ?case by simp
next
  case (Cons v vs)
  show ?case
    by (simp add: transfer_loop_Cons Cons.IH add_video_frame del: transfer_loop.simps
        split: sum.split)
qed

lemma transfer_loop_not_inserted:
  assumes "insertion_outcome (post (length (posts w))
          (insert_request (DESTINATION_PLAYLIST_ID cfg) (ACCESS_TOKEN cfg) x)) \<noteq> Inr True"
  shows "progress_file (snd (snd (transfer_loop cfg post planned j (x # rest') m w))) = progress_file w"
proof (cases "insertion_outcome (post (length (posts w))
          (insert_request (DESTINATION_PLAYLIST_ID cfg) (ACCESS_TOKEN cfg) x))")
  case (Inl e)
  then show ?thesis
    by (simp add: transfer_loop_Cons add_video_frame del: transfer_loop.simps)
next
  case (Inr ok)
  with assms have "\<not> ok" by simp
  with Inr show ?thesis
    by (simp add: transfer_loop_Cons add_video_frame del: transfer_loop.simps)
qed

lemma finish_short:
  "k \<noteq> planned \<Longrightarrow> finish k planned w = print (Transfer_complete k planned) (print Dashes w)"
  by (simp add: finish_def)

lemma finish_all: "progress_file (finish planned planned w) = None"
  by (simp add: finish_def Let_def)

lemma insertion_outcome_accepts_first:
  "insertion_outcome (accepts_first k n r) = Inr (n < k)"
  by (simp add: insertion_outcome_def add_video_unfold accepts_first_def raise_for_status_def)

lemma run_transfer_removes_once:
  assumes "all_inserted post cfg (length (posts w)) to_add" and "to_add \<noteq> []"
  shows "removes (snd (run_transfer cfg post to_add w)) = removes w + 1"
proof -
  let ?w0 = "print (Starting_transfer (length to_add)) w"
  from assms(1) have "all_inserted post cfg (length (posts ?w0)) to_add" by simp
  from transfer_loop_prefix [OF this, of "length to_add" 0 "[]" 0] obtain w1 where
    w1: "transfer_loop cfg post (length to_add) 0 (to_add @ []) 0 ?w0
       = transfer_loop cfg post (length to_add) (0 + length to_add) [] (0 + length to_add) w1"
      "progress_file w1 = (if to_add = [] then progress_file ?w0 else Some (last to_add))"
      "removes w1 = removes ?w0"
    by blast
  from w1(1) have "transfer_loop cfg post (length to_add) 0 to_add 0 ?w0 = (None, length to_add, w1)"
    by simp
  then have "run_transfer cfg post to_add w = (None, finish (length to_add) (length to_add) w1)"
    by (simp add: run_transfer_def)
  moreover have "removes (finish (length to_add) (length to_add) w1) = removes w1 + 1"
    using w1(2) assms(2) by (simp add: finish_def Let_def)
  ultimately show ?thesis using w1(3) by simp
qed

text \<open>
  C9. Take any point of the transfer loop: the identifiers \<open>added\<close> have been inserted,
  each successfully, and \<open>rest\<close> is still to do. The loop goes on from a world \<open>w'\<close>
  whose progress file holds exactly the last identifier of \<open>added\<close>, the most recent
  successful insertion; while nothing has been inserted the file is as it was before the
  loop, so nothing is written before an insertion succeeds. If the next insertion does not
  return \<open>True\<close>, the loop ends with the progress file still holding that value.
\<close>

theorem checkpoint_is_last_success:
  assumes "all_inserted post cfg (length (posts w)) added"
  shows "\<exists>w'. transfer_loop cfg post planned i (added @ rest) n w
               = transfer_loop cfg post planned (i + length added) rest (n + length added) w'
           \<and> progress_file w' = (if added = [] then progress_file w else Some (last added))
           \<and> length (posts w') = length (posts w) + length added
           \<and> (\<forall>x rest'. rest = x # rest'
                 \<and> insertion_outcome (post (length (posts w'))
                       (insert_request (DESTINATION_PLAYLIST_ID cfg) (ACCESS_TOKEN cfg) x)) \<noteq> Inr True
                 \<longrightarrow> progress_file (snd (snd (transfer_loop cfg post planned (i + length added) rest
                         (n + length added) w'))) = progress_file w')"
proof -
  from transfer_loop_prefix [OF assms, of planned i rest n] obtain w' where
    w': "transfer_loop cfg post planned i (added @ rest) n w
               = transfer_loop cfg post planned (i + length added) rest (n + length added) w'"
      "progress_file w' = (if added = [] then progress_file w else Some (last added))"
      "posts w' = posts w @ map (insert_request (DESTINATION_PLAYLIST_ID cfg) (ACCESS_TOKEN cfg)) added"
    by blast
  show ?thesis
  proof (intro exI [of _ w'] conjI allI impI)
    show "transfer_loop cfg post planned i (added @ rest) n w
               = transfer_loop cfg post planned (i + length added) rest (n + length added) w'"
      by (rule w'(1))
    show "progress_file w' = (if added = [] then progress_file w else Some (last added))"
      by (rule w'(2))
    show "length (posts w') = length (posts w) + length added"
      using w'(3) by simp
    fix x rest'
    assume a: "rest = x # rest'
                 \<and> insertion_outcome (post (length (posts w'))
                       (insert_request (DESTINATION_PLAYLIST_ID cfg) (ACCESS_TOKEN cfg) x)) \<noteq> Inr True"
    then have "progress_file (snd (snd (transfer_loop cfg post planned (i + length added) (x # rest')
                         (n + length added) w'))) = progress_file w'"
      by (intro transfer_loop_not_inserted) simp
    with a show "progress_file (snd (snd (transfer_loop cfg post planned (i + length added) rest
                         (n + length added) w'))) = progress_file w'"
      by simp
  qed
qed

theorem checkpoint_is_last_success_witness:
  "all_inserted (accepts_first 2) placeholders (length (posts fresh_world)) [''A'', ''B'']
   \<and> insertion_outcome (accepts_first 2 2
         (insert_request (DESTINATION_PLAYLIST_ID placeholders) (ACCESS_TOKEN placeholders) ''C''))
       \<noteq> Inr True
   \<and> progress_file (snd (snd (transfer_loop placeholders (accepts_first 2) 4 0
         ([''A'', ''B''] @ [''C'', ''D'']) 0 fresh_world))) = Some ''B''"
proof -
  have h: "all_inserted (accepts_first 2) placeholders (length (posts fresh_world)) [''A'', ''B'']"
    by (simp add: insertion_outcome_accepts_first fresh_world_def)
  have f: "insertion_outcome (accepts_first 2 2
         (insert_request (DESTINATION_PLAYLIST_ID placeholders) (ACCESS_TOKEN placeholders) ''C''))
       \<noteq> Inr True"
    by (simp add: insertion_outcome_accepts_first)
  have "\<exists>w'. transfer_loop placeholders (accepts_first 2) 4 0 ([''A'', ''B''] @ [''C'', ''D'']) 0 fresh_world
          = transfer_loop placeholders (accepts_first 2) 4 (0 + length [''A'', ''B''])
              [''C'', ''D''] (0 + length [''A'', ''B'']) w'
      \<and> progress_file w' = (if [''A'', ''B''] = [] then progress_file fresh_world
                           else Some (last [''A'', ''B'']))
      \<and> length (posts w') = length (posts fresh_world) + length [''A'', ''B'']
      \<and> (\<forall>x rest'. [''C'', ''D''] = x # rest'
                 \<and> insertion_outcome (accepts_first 2 (length (posts w'))
                       (insert_request (DESTINATION_PLAYLIST_ID placeholders)
                          (ACCESS_TOKEN placeholders) x)) \<noteq> Inr True
                 \<longrightarrow> progress_file (snd (snd (transfer_loop placeholders (accepts_first 2) 4
                         (0 + length [''A'', ''B'']) [''C'', ''D'']
                         (0 + length [''A'', ''B'']) w'))) = progress_file w')"
    by (rule checkpoint_is_last_success [OF h])
  then obtain w' where
    w1: "transfer_loop placeholders (accepts_first 2) 4 0 ([''A'', ''B''] @ [''C'', ''D'']) 0 fresh_world
          = transfer_loop placeholders (accepts_first 2) 4 (0 + length [''A'', ''B''])
              [''C'', ''D''] (0 + length [''A'', ''B'']) w'"
    and w2: "progress_file w' = (if [''A'', ''B''] = [] then progress_file fresh_world
                           else Some (last [''A'', ''B'']))"
    and w3: "length (posts w') = length (posts fresh_world) + length [''A'', ''B'']"
    and w4: "\<forall>x rest'. [''C'', ''D''] = x # rest'
                 \<and> insertion_outcome (accepts_first 2 (length (posts w'))
                       (insert_request (DESTINATION_PLAYLIST_ID placeholders)
                          (ACCESS_TOKEN placeholders) x)) \<noteq> Inr True
                 \<longrightarrow> progress_file (snd (snd (transfer_loop placeholders (accepts_first 2) 4
                         (0 + length [''A'', ''B'']) [''C'', ''D'']
                         (0 + length [''A'', ''B'']) w'))) = progress_file w'"
    by (elim exE conjE) (rule that; assumption)
  from w3 have n: "length (posts w') = 2" by (simp add: fresh_world_def)
  have "[''C'', ''D''] = ''C'' # [''D'']
      \<and> insertion_outcome (accepts_first 2 (length (posts w'))
            (insert_request (DESTINATION_PLAYLIST_ID placeholders)
               (ACCESS_TOKEN placeholders) ''C'')) \<noteq> Inr True"
    unfolding n using f by (intro conjI refl)
  with w4 have "progress_file (snd (snd (transfer_loop placeholders (accepts_first 2) 4
                         (0 + length [''A'', ''B'']) [''C'', ''D'']
                         (0 + length [''A'', ''B'']) w'))) = progress_file w'"
    by (elim allE impE) assumption+
  with w1 w2 have "progress_file (snd (snd (transfer_loop placeholders (accepts_first 2) 4 0
         ([''A'', ''B''] @ [''C'', ''D'']) 0 fresh_world))) = Some ''B''"
    by (simp del: transfer_loop.simps append.simps)
  with h f show ?thesis by (intro conjI)
qed


text \<open>
  C1. Let the work list be \<open>before @ x # after\<close>, with \<open>x\<close> its item number
  \<open>M = length before + 1\<close>: the insertions of \<open>before\<close> succeed and that of \<open>x\<close>
  returns \<open>False\<close>. Then the run posts the requests for \<open>before\<close> and for \<open>x\<close> and
  no other, so no item of \<open>after\<close> is attempted; and the progress file it leaves holds
  the last item of \<open>before\<close>, item number \<open>M - 1\<close>, or is as it was before the run when
  \<open>M = 1\<close> (absent, if it was absent).
\<close>

theorem halt_on_failure:
  assumes "all_inserted post cfg (length (posts w)) before"
    and "insertion_outcome (post (length (posts w) + length before)
           (insert_request (DESTINATION_PLAYLIST_ID cfg) (ACCESS_TOKEN cfg) x)) = Inr False"
  shows "\<exists>w'. run_transfer cfg post (before @ x # after) w = (None, w')
          \<and> posts w' = posts w
               @ map (insert_request (DESTINATION_PLAYLIST_ID cfg) (ACCESS_TOKEN cfg)) (before @ [x])
          \<and> progress_file w' = (if before = [] then progress_file w else Some (last before))"
proof -
  let ?N = "length (before @ x # after)"
  let ?w0 = "print (Starting_transfer ?N) w"
  let ?req = "insert_request (DESTINATION_PLAYLIST_ID cfg) (ACCESS_TOKEN cfg)"
  from assms(1) have "all_inserted post cfg (length (posts ?w0)) before" by simp
  from transfer_loop_prefix [OF this, of ?N 0 "x # after" 0] obtain w1 where
    w1': "transfer_loop cfg post ?N 0 (before @ x # after) 0 ?w0
           = transfer_loop cfg post ?N (0 + length before) (x # after) (0 + length before) w1"
      "progress_file w1 = (if before = [] then progress_file ?w0 else Some (last before))"
      "posts w1 = posts ?w0 @ map ?req before"
    by blast
  have w1: "transfer_loop cfg post ?N 0 (before @ x # after) 0 ?w0
           = transfer_loop cfg post ?N (length before) (x # after) (length before) w1"
      "progress_file w1 = (if before = [] then progress_file w else Some (last before))"
      "posts w1 = posts w @ map ?req before"
    using w1' by simp_all
  let ?w2 = "snd (add_video_to_playlist post (DESTINATION_PLAYLIST_ID cfg) (ACCESS_TOKEN cfg) x
                      (print (Adding_video (length before + 1) ?N x) w1))"
  have "insertion_outcome (post (length (posts w1)) (?req x)) = Inr False"
    using assms(2) w1(3) by simp
  then have "transfer_loop cfg post ?N (length before) (x # after) (length before) w1
      = (None, length before, print Stopping_transfer ?w2)"
    by (simp add: transfer_loop_Cons del: transfer_loop.simps)
  with w1(1) have run: "run_transfer cfg post (before @ x # after) w
      = (None, finish (length before) ?N (print Stopping_transfer ?w2))"
    by (simp add: run_transfer_def)
  have fin: "finish (length before) ?N (print Stopping_transfer ?w2)
      = print (Transfer_complete (length before) ?N) (print Dashes (print Stopping_transfer ?w2))"
    by (rule finish_short) simp
  show ?thesis
    unfolding run fin using w1(2,3) by (simp add: add_video_frame)
qed

theorem halt_on_failure_witness:
  "all_inserted (accepts_first 2) placeholders (length (posts fresh_world)) [''A'', ''B'']
   \<and> insertion_outcome (accepts_first 2 (length (posts fresh_world) + length [''A'', ''B''])
         (insert_request (DESTINATION_PLAYLIST_ID placeholders) (ACCESS_TOKEN placeholders) ''C''))
       = Inr False
   \<and> (\<exists>w'. run_transfer placeholders (accepts_first 2) ([''A'', ''B''] @ ''C'' # [''D'']) fresh_world
              = (None, w')
          \<and> posts w' = posts fresh_world
               @ map (insert_request (DESTINATION_PLAYLIST_ID placeholders) (ACCESS_TOKEN placeholders))
                   ([''A'', ''B''] @ [''C''])
          \<and> progress_file w' = Some ''B'')"
proof -
  have h1: "all_inserted (accepts_first 2) placeholders (length (posts fresh_world)) [''A'', ''B'']"
    by (simp add: insertion_outcome_accepts_first fresh_world_def)
  have h2: "insertion_outcome (accepts_first 2 (length (posts fresh_world) + length [''A'', ''B''])
         (insert_request (DESTINATION_PLAYLIST_ID placeholders) (ACCESS_TOKEN placeholders) ''C''))
       = Inr False"
    by (simp add: insertion_outcome_accepts_first fresh_world_def)
  from halt_on_failure [OF h1 h2, of "[''D'']"] h1 h2 show ?thesis
    by simp
qed

text \<open>
  C4. If every insertion of the work list succeeds, there is no progress file after the
  run (this holds for the empty work list too). And \<open>os.remove\<close> is called only in a run
  whose loop ended without an exception and with \<open>successful_additions\<close> equal to the
  length of the work list.
\<close>

theorem completion_clears_checkpoint:
  "(all_inserted post cfg (length (posts w)) to_add
      \<longrightarrow> (\<exists>w'. run_transfer cfg post to_add w = (None, w') \<and> progress_file w' = None))
   \<and> (removes (snd (run_transfer cfg post to_add w)) \<noteq> removes w
      \<longrightarrow> (\<exists>w'. transfer_loop cfg post (length to_add) 0 to_add 0
                  (print (Starting_transfer (length to_add)) w) = (None, length to_add, w')))"
proof (intro conjI impI)
  let ?w0 = "print (Starting_transfer (length to_add)) w"
  assume "all_inserted post cfg (length (posts w)) to_add"
  then have "all_inserted post cfg (length (posts ?w0)) to_add" by simp
  from transfer_loop_prefix [OF this, of "length to_add" 0 "[]" 0] obtain w1 where
    "transfer_loop cfg post (length to_add) 0 (to_add @ []) 0 ?w0
       = transfer_loop cfg post (length to_add) (0 + length to_add) [] (0 + length to_add) w1"
    by blast
  then have "transfer_loop cfg post (length to_add) 0 to_add 0 ?w0 = (None, length to_add, w1)"
    by simp
  then have "run_transfer cfg post to_add w = (None, finish (length to_add) (length to_add) w1)"
    by (simp add: run_transfer_def)
  then show "\<exists>w'. run_transfer cfg post to_add w = (None, w') \<and> progress_file w' = None"
    by (simp add: finish_all)
next
  let ?w0 = "print (Starting_transfer (length to_add)) w"
  assume changed: "removes (snd (run_transfer cfg post to_add w)) \<noteq> removes w"
  obtain e k w1 where loop: "transfer_loop cfg post (length to_add) 0 to_add 0 ?w0 = (e, k, w1)"
    using prod_cases3 by blast
  have same: "removes w1 = removes w"
    using transfer_loop_removes [of cfg post "length to_add" 0 to_add 0 ?w0] loop by simp
  have "e = None"
  proof (rule ccontr)
    assume "e \<noteq> None"
    then have "snd (run_transfer cfg post to_add w) = w1"
      using loop by (cases e) (simp_all add: run_transfer_def)
    with changed same show False by simp
  qed
  moreover have "k = length to_add"
  proof (rule ccontr)
    assume "k \<noteq> length to_add"
    then have "snd (run_transfer cfg post to_add w)
        = print (Transfer_complete k (length to_add)) (print Dashes w1)"
      using loop \<open>e = None\<close> by (simp add: run_transfer_def finish_short)
    with changed same show False by simp
  qed
  ultimately show "\<exists>w'. transfer_loop cfg post (length to_add) 0 to_add 0 ?w0
      = (None, length to_add, w')"
    using loop by simp
qed

theorem completion_clears_checkpoint_witness:
  "all_inserted (accepts_first 2) placeholders (length (posts fresh_world)) [''A'', ''B'']
   \<and> (\<exists>w'. run_transfer placeholders (accepts_first 2) [''A'', ''B''] fresh_world = (None, w')
          \<and> progress_file w' = None)
   \<and> removes (snd (run_transfer placeholders (accepts_first 2) [''A'', ''B''] fresh_world))
       \<noteq> removes fresh_world
   \<and> (\<exists>w'. transfer_loop placeholders (accepts_first 2) (length [''A'', ''B'']) 0 [''A'', ''B''] 0
              (print (Starting_transfer (length [''A'', ''B''])) fresh_world)
            = (None, length [''A'', ''B''], w'))"
proof -
  have h1: "all_inserted (accepts_first 2) placeholders (length (posts fresh_world)) [''A'', ''B'']"
    by (simp add: insertion_outcome_accepts_first fresh_world_def)
  have ne: "[''A'', ''B''] \<noteq> []" by simp
  have h2: "removes (snd (run_transfer placeholders (accepts_first 2) [''A'', ''B''] fresh_world))
       \<noteq> removes fresh_world"
    unfolding run_transfer_removes_once [OF h1 ne] by simp
  note t = completion_clears_checkpoint [of "accepts_first 2" placeholders fresh_world "[''A'', ''B'']"]
  from h1 t [THEN conjunct1, THEN mp, OF h1] h2 t [THEN conjunct2, THEN mp, OF h2]
  show ?thesis by (intro conjI)
qed

subsection \<open>The Lister\<close>

lemma fetch_pages_rejected:
  "rejected (get (length (gets w)) (list_params pl key tok)) \<Longrightarrow>
     fetch_pages get pl key tok videos w
       = Some ([], print Error_fetching (w\<lparr>gets := gets w @ [list_params pl key tok]\<rparr>))"
  by (subst fetch_pages.simps) (simp add: rejected_def Let_def split: http_response.splits)

lemma accepted_page_Some:
  "accepted_page r = Some p \<longleftrightarrow> (\<exists>s. r = Response s (Some p) \<and> \<not> raise_for_status s)"
  by (cases r) (auto simp: accepted_page_def)

lemma fetch_pages_continue:
  "accepted_page (get (length (gets w)) (list_params pl key tok)) = Some p \<Longrightarrow>
   truthy (nextPageToken p) \<Longrightarrow>
     fetch_pages get pl key tok videos w
       = fetch_pages get pl key (nextPageToken p) (append_videos (page_items p) videos)
           (w\<lparr>gets := gets w @ [list_params pl key tok]\<rparr>)"
  by (subst fetch_pages.simps) (auto simp: accepted_page_Some Let_def)


lemma append_videos_resolvable: "append_videos its videos = videos @ resolvable its"
  by (induction its arbitrary: videos) (simp_all add: resolvable_def)

lemma token_after_Cons: "token_after tok (p # ps) = token_after (nextPageToken p) ps"
  by (simp add: token_after_def)

lemma fetch_pages_served:
  "served get pl key (length (gets w)) tok ps \<Longrightarrow>
     \<exists>w'. fetch_pages get pl key tok videos w
            = fetch_pages get pl key (token_after tok ps)
                (videos @ resolvable (concat (map page_items ps))) w'
         \<and> length (gets w') = length (gets w) + length ps
         \<and> progress_file w' = progress_file w \<and> posts w' = posts w \<and> removes w' = removes w"
proof (induction ps arbitrary: tok videos w)
  case Nil
  show ?case by (rule exI [of _ w]) (simp add: token_after_def resolvable_def)
next
  case (Cons p ps)
  let ?w1 = "w\<lparr>gets := gets w @ [list_params pl key tok]\<rparr>"
  from Cons.prems have p: "accepted_page (get (length (gets w)) (list_params pl key tok)) = Some p"
    and t: "truthy (nextPageToken p)"
    and rest: "served get pl key (Suc (length (gets w))) (nextPageToken p) ps"
    by simp_all
  from rest have "served get pl key (length (gets ?w1)) (nextPageToken p) ps" by simp
  from Cons.IH [OF this, of "append_videos (page_items p) videos"] obtain w' where
    w': "fetch_pages get pl key (nextPageToken p) (append_videos (page_items p) videos) ?w1
            = fetch_pages get pl key (token_after (nextPageToken p) ps)
                (append_videos (page_items p) videos @ resolvable (concat (map page_items ps))) w'"
      "length (gets w') = length (gets ?w1) + length ps"
      "progress_file w' = progress_file ?w1" "posts w' = posts ?w1" "removes w' = removes ?w1"
    by blast
  have r: "append_videos (page_items p) videos @ resolvable (concat (map page_items ps))
      = videos @ resolvable (concat (map page_items (p # ps)))"
    by (simp add: append_videos_resolvable resolvable_def)
  show ?case
  proof (intro exI [of _ w'] conjI)
    show "fetch_pages get pl key tok videos w
            = fetch_pages get pl key (token_after tok (p # ps))
                (videos @ resolvable (concat (map page_items (p # ps)))) w'"
    proof -
      have "fetch_pages get pl key tok videos w
          = fetch_pages get pl key (nextPageToken p) (append_videos (page_items p) videos) ?w1"
        using p t by (rule fetch_pages_continue)
      with w'(1) r show ?thesis by (simp only: token_after_Cons)
    qed
    show "length (gets w') = length (gets w) + length (p # ps)" using w'(2) by simp
    show "progress_file w' = progress_file w" using w'(3) by simp
    show "posts w' = posts w" using w'(4) by simp
    show "removes w' = removes w" using w'(5) by simp
  qed
qed

lemma fetch_pages_frame:
  assumes "fetch_pages get pl key tok videos w = Some r"
  shows "progress_file (snd r) = progress_file w \<and> posts (snd r) = posts w
       \<and> removes (snd r) = removes w"
  using assms
  apply (rule fetch_pages.raw_induct [rotated, where P = "\<lambda>get pl key tok videos w r.
      progress_file (snd r) = progress_file w \<and> posts (snd r) = posts w
       \<and> removes (snd r) = removes w"])
  apply (simp add: Let_def split: http_response.splits if_splits option.splits)
   apply fastforce+
  done

lemma resolvable_nonempty: "[] \<notin> set (resolvable its)"
  by (auto simp: resolvable_def truthy_def split: option.splits)

lemma fetch_pages_ids_nonempty:
  assumes "fetch_pages get pl key tok videos w = Some r"
  shows "[] \<notin> set videos \<longrightarrow> [] \<notin> set (fst r)"
  using assms
  apply (rule fetch_pages.raw_induct [rotated, where P = "\<lambda>get pl key tok videos w r.
      [] \<notin> set videos \<longrightarrow> [] \<notin> set (fst r)"])
  apply (simp add: Let_def split: http_response.splits if_splits option.splits)
   apply (auto simp: append_videos_resolvable resolvable_nonempty)
  done

lemma listing_ids_nonempty:
  "get_all_videos_from_playlist get pl key w = Some (video_ids, w') \<Longrightarrow> [] \<notin> set video_ids"
  using fetch_pages_ids_nonempty [of get pl key None "[]" "print Fetching_videos w" "(video_ids, w')"]
  by (simp add: get_all_videos_from_playlist_def)


lemma listing_first_rejected:
  assumes "rejected (get (length (gets w)) (list_params pl key None))"
  shows "get_all_videos_from_playlist get pl key w
    = Some ([], print Error_fetching
          ((print Fetching_videos w)\<lparr>gets := gets w @ [list_params pl key None]\<rparr>))"
proof -
  from assms
  have "rejected (get (length (gets (print Fetching_videos w))) (list_params pl key None))"
    by simp
  then have "fetch_pages get pl key None [] (print Fetching_videos w)
    = Some ([], print Error_fetching
          ((print Fetching_videos w)\<lparr>gets := gets (print Fetching_videos w) @ [list_params pl key None]\<rparr>))"
    by (rule fetch_pages_rejected)
  then show ?thesis
    by (simp add: get_all_videos_from_playlist_def)
qed

text \<open>
  C5, as stated, at a response that is not 2xx: the endpoint answers the first request
  with status 300 and a page of one entry. \<open>raise_for_status\<close> raises for 400 to 599
  only, so the Lister reads the page and returns its identifier, not the empty sequence.
\<close>

theorem listing_status_300_not_empty:
  "get_all_videos_from_playlist
     (\<lambda>n r. Response 300 (Some \<lparr>items = Some [entry ''dQw4w9WgXcQ''], nextPageToken = None\<rparr>))
     ''PLsource'' ''key'' fresh_world
   = Some ([''dQw4w9WgXcQ''],
       \<lparr>progress_file = None, gets = [list_params ''PLsource'' ''key'' None], posts = [],
        stdout = [Fetching_videos, Found_videos 1], removes = 0\<rparr>)"
  apply (simp add: get_all_videos_from_playlist_def)
  apply (subst fetch_pages.simps)
  apply (simp add: Let_def raise_for_status_def truthy_def page_items_def entry_def
      item_video_id_def print_def fresh_world_def)
  done

text \<open>
  C5, amended. In every run of the Lister in which a page request meets a transport error
  or a response with a status code from 400 to 599, the Lister returns the empty sequence,
  whatever the pages before it held. The run reaches that request after the pages
  \<open>pages\<close>, each accepted and each carrying a continuation token.
\<close>

theorem listing_failure_returns_empty:
  assumes "served get pl key (length (gets w)) None pages"
    and "rejected (get (length (gets w) + length pages)
           (list_params pl key (token_after None pages)))"
  shows "\<exists>w'. get_all_videos_from_playlist get pl key w = Some ([], w')"
proof -
  let ?w0 = "print Fetching_videos w"
  from assms(1) have "served get pl key (length (gets ?w0)) None pages" by simp
  from fetch_pages_served [OF this, of "[]"] obtain w1 where
    w1: "fetch_pages get pl key None [] ?w0
           = fetch_pages get pl key (token_after None pages)
               ([] @ resolvable (concat (map page_items pages))) w1"
      "length (gets w1) = length (gets ?w0) + length pages"
    by blast
  from assms(2) w1(2)
  have "rejected (get (length (gets w1)) (list_params pl key (token_after None pages)))"
    by simp
  then have "fetch_pages get pl key (token_after None pages)
               ([] @ resolvable (concat (map page_items pages))) w1
      = Some ([], print Error_fetching
           (w1\<lparr>gets := gets w1 @ [list_params pl key (token_after None pages)]\<rparr>))"
    by (rule fetch_pages_rejected)
  with w1(1) show ?thesis
    by (simp add: get_all_videos_from_playlist_def)
qed

theorem listing_failure_returns_empty_witness:
  "served (serves_pages [\<lparr>items = Some [entry ''A''], nextPageToken = Some ''CAUQAA''\<rparr>])
      ''PLsource'' ''key'' (length (gets fresh_world)) None
      [\<lparr>items = Some [entry ''A''], nextPageToken = Some ''CAUQAA''\<rparr>]
   \<and> rejected (serves_pages [\<lparr>items = Some [entry ''A''], nextPageToken = Some ''CAUQAA''\<rparr>]
        (length (gets fresh_world)
           + length [\<lparr>items = Some [entry ''A''], nextPageToken = Some ''CAUQAA''\<rparr>])
        (list_params ''PLsource'' ''key''
           (token_after None [\<lparr>items = Some [entry ''A''], nextPageToken = Some ''CAUQAA''\<rparr>])))
   \<and> (\<exists>w'. get_all_videos_from_playlist
          (serves_pages [\<lparr>items = Some [entry ''A''], nextPageToken = Some ''CAUQAA''\<rparr>])
          ''PLsource'' ''key'' fresh_world = Some ([], w'))"
proof -
  let ?p = "\<lparr>items = Some [entry ''A''], nextPageToken = Some ''CAUQAA''\<rparr>"
  have h1: "served (serves_pages [?p]) ''PLsource'' ''key'' (length (gets fresh_world)) None [?p]"
    by (simp add: accepted_page_def serves_pages_def raise_for_status_def truthy_def fresh_world_def)
  have h2: "rejected (serves_pages [?p] (length (gets fresh_world) + length [?p])
        (list_params ''PLsource'' ''key'' (token_after None [?p])))"
    by (simp add: rejected_def serves_pages_def fresh_world_def)
  from h1 h2 listing_failure_returns_empty [OF h1 h2] show ?thesis by (intro conjI)
qed





text \<open>
  C8, as stated, at an empty source playlist with a progress file left by an earlier run:
  the Lister returns the empty sequence, \<open>main\<close> prints that there is nothing to transfer
  and returns, and the progress file is still there. \<open>os.remove\<close> is not called.
\<close>

theorem empty_listing_checkpoint_not_removed:
  "get_all_videos_from_playlist
      (\<lambda>n r. Response 200 (Some \<lparr>items = Some [], nextPageToken = None\<rparr>))
      (SOURCE_PLAYLIST_ID placeholders) (API_KEY placeholders)
      (fresh_world\<lparr>progress_file := Some ''dQw4w9WgXcQ''\<rparr>)
    = Some ([], \<lparr>progress_file = Some ''dQw4w9WgXcQ'',
         gets = [list_params (SOURCE_PLAYLIST_ID placeholders) (API_KEY placeholders) None],
         posts = [], stdout = [Fetching_videos, Found_videos 0], removes = 0\<rparr>)
   \<and> main placeholders
      (\<lambda>n r. Response 200 (Some \<lparr>items = Some [], nextPageToken = None\<rparr>))
      (\<lambda>n r. Response 200 None)
      (fresh_world\<lparr>progress_file := Some ''dQw4w9WgXcQ''\<rparr>)
    = Some (None, \<lparr>progress_file = Some ''dQw4w9WgXcQ'',
         gets = [list_params (SOURCE_PLAYLIST_ID placeholders) (API_KEY placeholders) None],
         posts = [], stdout = [Fetching_videos, Found_videos 0, No_videos], removes = 0\<rparr>)"
proof -
  have l: "get_all_videos_from_playlist
      (\<lambda>n r. Response 200 (Some \<lparr>items = Some [], nextPageToken = None\<rparr>))
      (SOURCE_PLAYLIST_ID placeholders) (API_KEY placeholders)
      (fresh_world\<lparr>progress_file := Some ''dQw4w9WgXcQ''\<rparr>)
    = Some ([], \<lparr>progress_file = Some ''dQw4w9WgXcQ'',
         gets = [list_params (SOURCE_PLAYLIST_ID placeholders) (API_KEY placeholders) None],
         posts = [], stdout = [Fetching_videos, Found_videos 0], removes = 0\<rparr>)"
    apply (simp add: get_all_videos_from_playlist_def)
    apply (subst fetch_pages.simps)
    apply (simp add: Let_def raise_for_status_def truthy_def page_items_def print_def
        fresh_world_def)
    done
  show ?thesis
    unfolding main_def l by (simp add: placeholders_def print_def)
qed

text \<open>
  C8, amended. Whenever the Lister returns the empty sequence, \<open>main\<close> returns at once,
  with no exception: nothing is posted, and the progress file is left as it was, neither
  written nor removed.
\<close>

theorem empty_listing_keeps_checkpoint:
  assumes "API_KEY cfg \<noteq> []" and "SOURCE_PLAYLIST_ID cfg \<noteq> []"
    and "DESTINATION_PLAYLIST_ID cfg \<noteq> []" and "ACCESS_TOKEN cfg \<noteq> []"
    and "get_all_videos_from_playlist get (SOURCE_PLAYLIST_ID cfg) (API_KEY cfg) w = Some ([], w1)"
  shows "main cfg get post w = Some (None, print No_videos w1)
       \<and> progress_file (print No_videos w1) = progress_file w
       \<and> posts (print No_videos w1) = posts w
       \<and> removes (print No_videos w1) = removes w"
proof -
  from assms(5) have "fetch_pages get (SOURCE_PLAYLIST_ID cfg) (API_KEY cfg) None []
      (print Fetching_videos w) = Some ([], w1)"
    by (simp add: get_all_videos_from_playlist_def)
  from fetch_pages_frame [OF this]
  have "progress_file w1 = progress_file w \<and> posts w1 = posts w \<and> removes w1 = removes w"
    by simp
  then show ?thesis using assms by (simp add: main_def)
qed

theorem empty_listing_keeps_checkpoint_witness:
  "API_KEY placeholders \<noteq> [] \<and> SOURCE_PLAYLIST_ID placeholders \<noteq> []
   \<and> DESTINATION_PLAYLIST_ID placeholders \<noteq> [] \<and> ACCESS_TOKEN placeholders \<noteq> []
   \<and> get_all_videos_from_playlist (serves_pages [])
        (SOURCE_PLAYLIST_ID placeholders) (API_KEY placeholders)
        (fresh_world\<lparr>progress_file := Some ''B''\<rparr>)
      = Some ([], print Error_fetching
          ((print Fetching_videos (fresh_world\<lparr>progress_file := Some ''B''\<rparr>))
             \<lparr>gets := gets (fresh_world\<lparr>progress_file := Some ''B''\<rparr>)
                @ [list_params (SOURCE_PLAYLIST_ID placeholders) (API_KEY placeholders) None]\<rparr>))
   \<and> progress_file (snd (the (main placeholders (serves_pages []) (accepts_first 0)
        (fresh_world\<lparr>progress_file := Some ''B''\<rparr>)))) = Some ''B''"
proof -
  let ?w = "fresh_world\<lparr>progress_file := Some ''B''\<rparr>"
  let ?w1 = "print Error_fetching ((print Fetching_videos ?w)
             \<lparr>gets := gets ?w @ [list_params (SOURCE_PLAYLIST_ID placeholders) (API_KEY placeholders) None]\<rparr>)"
  have c1: "API_KEY placeholders \<noteq> []" and c2: "SOURCE_PLAYLIST_ID placeholders \<noteq> []"
    and c3: "DESTINATION_PLAYLIST_ID placeholders \<noteq> []" and c4: "ACCESS_TOKEN placeholders \<noteq> []"
    by (simp_all add: placeholders_def)
  have "rejected (serves_pages [] (length (gets ?w))
      (list_params (SOURCE_PLAYLIST_ID placeholders) (API_KEY placeholders) None))"
    by (simp add: rejected_def serves_pages_def)
  then have l: "get_all_videos_from_playlist (serves_pages [])
        (SOURCE_PLAYLIST_ID placeholders) (API_KEY placeholders) ?w = Some ([], ?w1)"
    by (rule listing_first_rejected)
  from empty_listing_keeps_checkpoint [OF c1 c2 c3 c4 l, of "accepts_first 0"]
  have "progress_file (snd (the (main placeholders (serves_pages []) (accepts_first 0) ?w))) = Some ''B''"
    by simp
  with c1 c2 c3 c4 l show ?thesis by (intro conjI)
qed

subsection \<open>The resume point\<close>








end
